theory Spec2Isabelle
  imports Main "HOL-Library.Word"
begin

unbundle bit_operations_syntax

section \<open>The C++ executor \<^verbatim>\<open>src/executors/cpp/runner.cpp\<close>\<close>

text \<open>
  The runner is one C++ translation unit: \<^verbatim>\<open>base64_decode\<close>, the memory probes
  \<^verbatim>\<open>getCgroupsMemoryPeak\<close> and \<^verbatim>\<open>getMemoryUsage\<close>, \<^verbatim>\<open>escapeJson\<close>,
  \<^verbatim>\<open>printError\<close> and \<^verbatim>\<open>main\<close>. Each becomes a HOL function of the same name.
  Bytes are \<^typ>\<open>char\<close> (eight bits), a \<^verbatim>\<open>std::string\<close> is a \<^typ>\<open>string\<close>, a C++
  \<^verbatim>\<open>int\<close> that is shifted is a \<^typ>\<open>32 word\<close>, and everything \<^verbatim>\<open>main\<close> asks of its
  surroundings (environment, file system, subprocess, clock) is a field of the record
  \<open>world\<close> below.
\<close>

subsection \<open>C strings\<close>

text \<open>
  A \<^verbatim>\<open>const char*\<close> ends at its first NUL byte. \<^verbatim>\<open>strlen\<close> and the conversion to
  \<^verbatim>\<open>std::string\<close> (also \<^verbatim>\<open>std::string::operator+=(const char*)\<close>) read up to there.
\<close>

definition c_str :: "string \<Rightarrow> string" where
  "c_str s = takeWhile (\<lambda>c. c \<noteq> CHR 0x00) s"

definition strlen :: "string \<Rightarrow> nat" where
  "strlen s = length (c_str s)"

subsection \<open>\<^verbatim>\<open>base64_decode\<close> (lines 20 to 39)\<close>

definition base64_chars :: string where
  "base64_chars = ''ABCDEFGHIJKLMNOPQRSTUVWXYZabcdefghijklmnopqrstuvwxyz0123456789+/''"

text \<open>
  \<^verbatim>\<open>std::vector<int> T(256, -1); for (int i = 0; i < 64; i++) T[base64_chars[i]] = i;\<close>
  The table is indexed by the byte; the 64 assignments run in order over a table that is
  \<open>-1\<close> everywhere.
\<close>

definition T :: "char \<Rightarrow> int" where
  "T = fold (\<lambda>i t. t(base64_chars ! i := int i)) [0..<64] (\<lambda>_. - 1)"

text \<open>
  The loop over \<^verbatim>\<open>encoded\<close>, with its three variables \<^verbatim>\<open>val\<close>, \<^verbatim>\<open>valb\<close> and
  \<^verbatim>\<open>decoded\<close>. \<^verbatim>\<open>val\<close> is a 32-bit \<^verbatim>\<open>int\<close>: \<^verbatim>\<open>val << 6\<close> drops the bits shifted
  out at the top (what g++ does on two's complement hardware), and the addition of
  \<^verbatim>\<open>T[c]\<close>, at most 63, lands in the six bits the shift cleared. \<^verbatim>\<open>val >> valb\<close> on a
  signed \<^verbatim>\<open>int\<close> is the arithmetic shift. \<^verbatim>\<open>valb\<close> stays between \<open>-8\<close> and \<open>4\<close>.
  \<^verbatim>\<open>break\<close> leaves the loop with what has been decoded.
\<close>

fun decode_loop :: "32 word \<Rightarrow> int \<Rightarrow> string \<Rightarrow> string \<Rightarrow> string" where
  "decode_loop val valb decoded [] = decoded"
| "decode_loop val valb decoded (c # cs) =
     (if T c = - 1 then decoded
      else
        let val' = push_bit 6 val + word_of_int (T c);
            valb' = valb + 6
        in if valb' \<ge> 0
           then decode_loop val' (valb' - 8)
                  (decoded @ [char_of (unat (signed_drop_bit (nat valb') val' AND 0xFF))]) cs
           else decode_loop val' valb' decoded cs)"

definition base64_decode :: "string \<Rightarrow> string" where
  "base64_decode encoded = decode_loop 0 (- 8) [] encoded"

subsection \<open>Base64 as a bit stream\<close>

text \<open>
  What decoding a base64 text means, stated without the loop: every character stands for
  the six bits of its position in the alphabet, most significant bit first; the bits of
  all characters are laid end to end; output byte \<open>j\<close> is bits \<open>8 j\<close> to \<open>8 j + 7\<close> of that
  stream, and a tail of fewer than eight bits yields no byte.
\<close>

definition index_of :: "'a list \<Rightarrow> 'a \<Rightarrow> nat" where
  "index_of xs x = length (takeWhile (\<lambda>y. y \<noteq> x) xs)"

definition bits_value :: "bool list \<Rightarrow> nat" where
  "bits_value bs = foldl (\<lambda>v b. 2 * v + of_bool b) 0 bs"

definition sextet_bits :: "char \<Rightarrow> bool list" where
  "sextet_bits c = map (bit (index_of base64_chars c)) [5, 4, 3, 2, 1, 0]"

definition bit_stream :: "string \<Rightarrow> bool list" where
  "bit_stream cs = concat (map sextet_bits cs)"

definition octets :: "bool list \<Rightarrow> string" where
  "octets bs = map (\<lambda>j. char_of (bits_value (take 8 (drop (8 * j) bs)))) [0..<length bs div 8]"

definition base64_prefix :: "string \<Rightarrow> string" where
  "base64_prefix s = takeWhile (\<lambda>c. c \<in> set base64_chars) s"

definition stream_decode :: "string \<Rightarrow> string" where
  "stream_decode cs = octets (bit_stream cs)"

subsection \<open>\<^verbatim>\<open>escapeJson\<close> (lines 72 to 85)\<close>

text \<open>
  The loop appends, for every byte of \<^verbatim>\<open>s\<close>, either its two-byte escape or the byte.
  Only the quote, the backslash, line feed, carriage return and tab are escaped.
\<close>

fun escapeJson :: "string \<Rightarrow> string" where
  "escapeJson [] = []"
| "escapeJson (c # s) =
     (if c = CHR 0x22 then [CHR 0x5C, CHR 0x22]
      else if c = CHR 0x5C then [CHR 0x5C, CHR 0x5C]
      else if c = CHR 0x0A then [CHR 0x5C, CHR ''n'']
      else if c = CHR 0x0D then [CHR 0x5C, CHR ''r'']
      else if c = CHR 0x09 then [CHR 0x5C, CHR ''t'']
      else [c]) @ escapeJson s"

subsection \<open>The record written to standard output\<close>

text \<open>
  Both output statements of the source write one JSON object on one line, as a fixed
  sequence of keys with a string, an integer or the empty array as value. The model keeps
  the object as the list of its key/value pairs in the order written; \<open>render_line\<close>
  gives back the bytes, and \<open>printError_bytes\<close> and \<open>accepted_bytes\<close> below show that
  these are the bytes the two statements send to \<^verbatim>\<open>std::cout\<close>. \<open>JStr s\<close> holds the bytes
  written between the two quotes, escapes included.
\<close>

datatype jvalue =
    JStr string
  | JNum int
  | JArr "jvalue list"
  | JObj "(string \<times> jvalue) list"

type_synonym report = "(string \<times> jvalue) list"

text \<open>\<^verbatim>\<open>operator<<\<close> on an \<^verbatim>\<open>int\<close> or a \<^verbatim>\<open>long\<close>: decimal digits, a minus sign first
  when negative.\<close>

fun show_nat :: "nat \<Rightarrow> string" where
  "show_nat n =
     (if n < 10 then [char_of (48 + n)]
      else show_nat (n div 10) @ [char_of (48 + n mod 10)])"

definition show_int :: "int \<Rightarrow> string" where
  "show_int i = (if i < 0 then CHR ''-'' # show_nat (nat (- i)) else show_nat (nat i))"

fun join :: "string \<Rightarrow> string list \<Rightarrow> string" where
  "join sep [] = []"
| "join sep [x] = x"
| "join sep (x # y # ys) = x @ sep @ join sep (y # ys)"

fun render :: "jvalue \<Rightarrow> string" where
  "render (JStr s) = [CHR 0x22] @ s @ [CHR 0x22]"
| "render (JNum i) = show_int i"
| "render (JArr xs) = ''['' @ join '','' (map render xs) @ '']''"
| "render (JObj kvs) =
     ''{'' @ join '','' (map (\<lambda>kv. [CHR 0x22] @ fst kv @ [CHR 0x22] @ '':'' @ render (snd kv)) kvs) @ ''}''"

definition render_line :: "report \<Rightarrow> string" where
  "render_line r = render (JObj r) @ [CHR 0x0A]"

subsection \<open>\<^verbatim>\<open>printError\<close> (lines 87 to 93)\<close>

text \<open>
  \<^verbatim>\<open>status\<close> is written as it is, \<^verbatim>\<open>message\<close> through \<^verbatim>\<open>escapeJson\<close>; the memory and the
  two test counts are the literal \<open>0\<close>. The record has no \<^verbatim>\<open>test_results\<close> key.
\<close>

definition printError :: "string \<Rightarrow> string \<Rightarrow> int \<Rightarrow> int \<Rightarrow> report" where
  "printError status message compilationTimeMs executionTimeMs =
     [(''status'', JStr status),
      (''error_message'', JStr (escapeJson message)),
      (''compilation_time_ms'', JNum compilationTimeMs),
      (''execution_time_ms'', JNum executionTimeMs),
      (''memory_used_kb'', JNum 0),
      (''tests_passed'', JNum 0),
      (''tests_total'', JNum 0)]"

text \<open>The record of lines 163 to 167, written after a compilation that exited with 0.\<close>

definition accepted_report :: "int \<Rightarrow> int \<Rightarrow> report" where
  "accepted_report compilationTimeMs memoryKb =
     [(''status'', JStr ''accepted''),
      (''tests_passed'', JNum 0),
      (''tests_total'', JNum 0),
      (''compilation_time_ms'', JNum compilationTimeMs),
      (''execution_time_ms'', JNum 0),
      (''total_execution_time_ms'', JNum 0),
      (''memory_used_kb'', JNum memoryKb),
      (''test_results'', JArr [])]"

subsection \<open>What \<^verbatim>\<open>main\<close> asks of its surroundings\<close>

text \<open>
  \<^item> \<open>env\<close>: \<^verbatim>\<open>std::getenv\<close>; \<open>None\<close> is the null pointer.
  \<^item> \<open>ofstream_opens path\<close>: whether \<^verbatim>\<open>std::ofstream outFile(path)\<close> opens.
  \<^item> \<open>popen cmd written\<close>: what \<^verbatim>\<open>popen(cmd, "r")\<close> gives when the source file holds
    \<open>written\<close>: \<open>None\<close> for the null pointer, otherwise all the bytes the command
    writes to the pipe until it exits, and the value \<^verbatim>\<open>pclose\<close> returns. The source waits
    for the command without a time limit; \<open>main\<close> is the run with a command that
    exits, and \<open>main_waiting\<close> below adds the command that does not. The
    command's behaviour is a function of the command line and of the file just written:
    it does not look at the judge's environment variables.
  \<^item> \<open>compile_ms\<close>: the \<^verbatim>\<open>int\<close> the two clock readings around the compilation give.
  \<^item> \<open>ifstream path\<close>: the contents \<^verbatim>\<open>std::ifstream file(path)\<close> reads, \<open>None\<close> when
    it does not open.
  \<^item> \<open>extract_long text\<close>: the \<^verbatim>\<open>long\<close> that \<^verbatim>\<open>stream >> value\<close> extracts from \<open>text\<close>.
  \<^item> \<open>pid\<close>: the process id of this run of the judge. The source never asks for it.
\<close>

record world =
  env :: "string \<Rightarrow> string option"
  ofstream_opens :: "string \<Rightarrow> bool"
  popen :: "string \<Rightarrow> string \<Rightarrow> (string \<times> int) option"
  compile_ms :: int
  ifstream :: "string \<Rightarrow> string option"
  extract_long :: "string \<Rightarrow> int"
  pid :: nat

text \<open>What a run does to the file system and to other processes, in order.\<close>

datatype effect =
    Ofstream string
  | Wrote string string
  | Popen string
  | Ifstream string

text \<open>What a run leaves behind: the records written to \<^verbatim>\<open>std::cout\<close>, one per output
  statement executed, the value \<^verbatim>\<open>main\<close> returns, and its effects.\<close>

record run =
  stdout :: "report list"
  exit_code :: int
  effects :: "effect list"

subsection \<open>The memory probes (lines 42 to 69)\<close>

text \<open>C++ division of a \<^verbatim>\<open>long\<close> rounds towards zero.\<close>

definition cdiv :: "int \<Rightarrow> int \<Rightarrow> int" where
  "cdiv a b = sgn a * sgn b * (\<bar>a\<bar> div \<bar>b\<bar>)"

definition getCgroupsMemoryPeak :: "world \<Rightarrow> int" where
  "getCgroupsMemoryPeak w =
     (case ifstream w ''/sys/fs/cgroup/memory.peak'' of
        Some text \<Rightarrow> cdiv (extract_long w text) 1024
      | None \<Rightarrow> - 1)"

text \<open>\<^verbatim>\<open>std::getline\<close> until it fails: the lines of a text, a last line without its line
  feed included, no empty line after a final line feed.\<close>

fun getlines :: "string \<Rightarrow> string \<Rightarrow> string list" where
  "getlines line [] = (if line = [] then [] else [line])"
| "getlines line (c # s) =
     (if c = CHR 0x0A then line # getlines [] s else getlines (line @ [c]) s)"

fun find_VmRSS :: "world \<Rightarrow> string list \<Rightarrow> int" where
  "find_VmRSS w [] = 0"
| "find_VmRSS w (line # rest) =
     (if take 6 line = ''VmRSS:'' then extract_long w (drop 6 line) else find_VmRSS w rest)"

definition getMemoryUsage :: "world \<Rightarrow> int" where
  "getMemoryUsage w =
     (let cgroupMem = getCgroupsMemoryPeak w in
      if cgroupMem \<ge> 0 then cgroupMem
      else case ifstream w ''/proc/self/status'' of
             None \<Rightarrow> 0
           | Some text \<Rightarrow> find_VmRSS w (getlines [] text))"

definition getMemoryUsage_effects :: "world \<Rightarrow> effect list" where
  "getMemoryUsage_effects w =
     (if getCgroupsMemoryPeak w \<ge> 0 then [Ifstream ''/sys/fs/cgroup/memory.peak'']
      else [Ifstream ''/sys/fs/cgroup/memory.peak'', Ifstream ''/proc/self/status''])"

subsection \<open>Reading the compiler's output (lines 141 to 146)\<close>

text \<open>
  \<^verbatim>\<open>fgets(buffer, n, pipe)\<close> fails at the end of the stream; otherwise it stores at most
  \<open>n - 1\<close> bytes, stopping after a line feed, and leaves the rest in the stream.
  \<^verbatim>\<open>compileOutput += buffer\<close> appends the buffer as a C string.
\<close>

fun fgets_bytes :: "nat \<Rightarrow> string \<Rightarrow> string \<times> string" where
  "fgets_bytes 0 s = ([], s)"
| "fgets_bytes (Suc k) [] = ([], [])"
| "fgets_bytes (Suc k) (c # s) =
     (if c = CHR 0x0A then ([c], s)
      else case fgets_bytes k s of (buffer, rest) \<Rightarrow> (c # buffer, rest))"

definition fgets :: "nat \<Rightarrow> string \<Rightarrow> (string \<times> string) option" where
  "fgets n s = (if s = [] then None else Some (fgets_bytes (n - 1) s))"

function read_pipe :: "string \<Rightarrow> string \<Rightarrow> string" where
  "read_pipe pipe compileOutput =
     (case fgets 128 pipe of
        None \<Rightarrow> compileOutput
      | Some (buffer, rest) \<Rightarrow> read_pipe rest (compileOutput @ c_str buffer))"
  by pat_completeness auto
termination
proof (relation "measure (\<lambda>(pipe, compileOutput). length pipe)")
  show "wf (measure (\<lambda>(pipe, compileOutput). length pipe))"
    by simp
next
  fix pipe compileOutput :: string and x buffer rest
  assume "fgets 128 pipe = Some x" and "(buffer, rest) = x"
  then obtain c s where p: "pipe = c # s" and r: "fgets_bytes 127 (c # s) = (buffer, rest)"
    by (cases pipe) (auto simp: fgets_def)
  have "length (snd (fgets_bytes k t)) \<le> length t" for k t
    by (induction k t rule: fgets_bytes.induct) (auto split: prod.splits)
  from this [of 126 s] r have "length rest \<le> length s"
    by (auto simp: numeral_eq_Suc split: if_splits prod.splits)
  then show "((rest, compileOutput @ c_str buffer), (pipe, compileOutput))
             \<in> measure (\<lambda>(pipe, compileOutput). length pipe)"
    by (simp add: p)
qed

subsection \<open>\<^verbatim>\<open>main\<close> (lines 95 to 170)\<close>

definition sourceFile :: string where
  "sourceFile = ''/tmp/user_code.cpp''"

definition execFile :: string where
  "execFile = ''/tmp/user_code''"

definition compileCmd :: string where
  "compileCmd = ''g++ -O2 -std=c++17 -o '' @ execFile @ '' '' @ sourceFile @ '' 2>&1''"

text \<open>What lines 118 to 128 write to the source file.\<close>

definition source_text :: "string \<Rightarrow> string" where
  "source_text code =
     ''#include <iostream>'' @ [CHR 0x0A] @
     ''#include <vector>'' @ [CHR 0x0A] @
     ''#include <string>'' @ [CHR 0x0A] @
     ''#include <algorithm>'' @ [CHR 0x0A] @
     ''#include <cmath>'' @ [CHR 0x0A] @
     ''#include <map>'' @ [CHR 0x0A] @
     ''#include <set>'' @ [CHR 0x0A] @
     ''#include <queue>'' @ [CHR 0x0A] @
     ''#include <stack>'' @ [CHR 0x0A] @
     ''using namespace std;'' @ [CHR 0x0A, CHR 0x0A] @
     code @ [CHR 0x0A]"

text \<open>
  Every \<^verbatim>\<open>return\<close> of \<^verbatim>\<open>main\<close> is one branch. \<^verbatim>\<open>testCasesJson\<close> is read from the
  environment and not used again.
\<close>

definition main :: "world \<Rightarrow> run" where
  "main w =
     (let codeB64 = env w ''CODE'';
          testCasesJson = env w ''TEST_CASES''
      in
      if codeB64 = None \<or> strlen (the codeB64) = 0 then
        \<lparr>stdout = [printError ''compilation_error'' ''No code provided'' 0 0],
         exit_code = 0, effects = []\<rparr>
      else
        let code = base64_decode (c_str (the codeB64)) in
        if \<not> ofstream_opens w sourceFile then
          \<lparr>stdout = [printError ''compilation_error'' ''Failed to write source file'' 0 0],
           exit_code = 0, effects = [Ofstream sourceFile]\<rparr>
        else
          case popen w compileCmd (source_text code) of
            None \<Rightarrow>
              \<lparr>stdout = [printError ''compilation_error'' ''Failed to start compiler'' 0 0],
               exit_code = 0,
               effects = [Ofstream sourceFile, Wrote sourceFile (source_text code),
                          Popen compileCmd]\<rparr>
          | Some (pipe, compileStatus) \<Rightarrow>
              let compileOutput = read_pipe pipe [];
                  compilationTimeMs = compile_ms w
              in
              if compileStatus \<noteq> 0 then
                \<lparr>stdout = [printError ''compilation_error'' compileOutput compilationTimeMs 0],
                 exit_code = 0,
                 effects = [Ofstream sourceFile, Wrote sourceFile (source_text code),
                            Popen compileCmd]\<rparr>
              else
                let memoryKb = getMemoryUsage w in
                \<lparr>stdout = [accepted_report compilationTimeMs memoryKb],
                 exit_code = 0,
                 effects = [Ofstream sourceFile, Wrote sourceFile (source_text code),
                            Popen compileCmd] @ getMemoryUsage_effects w\<rparr>)"

subsection \<open>A compiler that does not exit\<close>

text \<open>
  \<open>popen\<close> of a world describes a command that exits, and \<open>main\<close> above is the run
  with such a command. The source puts no limit on the wait: the loop of lines 143 to 145
  ends only when \<^verbatim>\<open>fgets\<close> meets the end of the stream, that is, when the command has
  closed its end of the pipe. \<open>pipe_closes cmd written\<close> says whether the command, started
  on the file \<open>written\<close>, ever does. When \<^verbatim>\<open>popen\<close> has given a pipe and the command never
  closes it, \<^verbatim>\<open>main\<close> stays in that loop: it reaches no output statement and no
  \<^verbatim>\<open>return\<close>, and the source has no timer and no handler that would end the run. The
  run is then \<open>None\<close>. The three returns before the loop do not depend on the command.
\<close>

definition main_waiting :: "(string \<Rightarrow> string \<Rightarrow> bool) \<Rightarrow> world \<Rightarrow> run option" where
  "main_waiting pipe_closes w =
     (case env w ''CODE'' of
        None \<Rightarrow> Some (main w)
      | Some codeB64 \<Rightarrow>
          if strlen codeB64 = 0 then Some (main w)
          else if \<not> ofstream_opens w sourceFile then Some (main w)
          else if popen w compileCmd (source_text (base64_decode (c_str codeB64))) = None
          then Some (main w)
          else if pipe_closes compileCmd (source_text (base64_decode (c_str codeB64)))
          then Some (main w)
          else None)"

section \<open>Notions the specification uses\<close>

subsection \<open>Reading a report\<close>

definition field :: "string \<Rightarrow> report \<Rightarrow> jvalue option" where
  "field key r = map_of r key"

text \<open>The entries of \<^verbatim>\<open>test_results\<close>; a record without that key has none.\<close>

definition test_results :: "report \<Rightarrow> jvalue list" where
  "test_results r = (case field ''test_results'' r of Some (JArr entries) \<Rightarrow> entries | _ \<Rightarrow> [])"

definition entry_accepted :: "jvalue \<Rightarrow> bool" where
  "entry_accepted e =
     (case e of JObj kvs \<Rightarrow> map_of kvs ''status'' = Some (JStr ''accepted'') | _ \<Rightarrow> False)"

text \<open>What a JSON reader makes of the bytes between the quotes, for the five escapes
  \<open>escapeJson\<close> writes.\<close>

fun unescapeJson :: "string \<Rightarrow> string" where
  "unescapeJson (b # c # s) =
     (if b = CHR 0x5C then
        (if c = CHR ''n'' then CHR 0x0A
         else if c = CHR ''r'' then CHR 0x0D
         else if c = CHR ''t'' then CHR 0x09
         else c) # unescapeJson s
      else b # unescapeJson (c # s))"
| "unescapeJson s = s"

subsection \<open>The stages of a run\<close>

text \<open>
  What the compiler subprocess gives, when the run gets as far as starting it: \<open>None\<close>
  when the code payload is absent or empty, the source file does not open or \<^verbatim>\<open>popen\<close>
  fails; otherwise the bytes on the pipe and the exit status.
\<close>

definition compiler_run :: "world \<Rightarrow> (string \<times> int) option" where
  "compiler_run w =
     (case env w ''CODE'' of
        None \<Rightarrow> None
      | Some codeB64 \<Rightarrow>
          if strlen codeB64 = 0 then None
          else if ofstream_opens w sourceFile
          then popen w compileCmd (source_text (base64_decode (c_str codeB64)))
          else None)"

text \<open>The compiler, if this run starts it, exits.\<close>

definition compiler_exits :: "(string \<Rightarrow> string \<Rightarrow> bool) \<Rightarrow> world \<Rightarrow> bool" where
  "compiler_exits pipe_closes w =
     (case env w ''CODE'' of
        None \<Rightarrow> True
      | Some codeB64 \<Rightarrow>
          compiler_run w = None
          \<or> pipe_closes compileCmd (source_text (base64_decode (c_str codeB64))))"

definition compiles :: "world \<Rightarrow> bool" where
  "compiles w = (case compiler_run w of Some (pipe, compileStatus) \<Rightarrow> compileStatus = 0 | None \<Rightarrow> False)"

definition files_written :: "run \<Rightarrow> string list" where
  "files_written r = concat (map (\<lambda>e. case e of Wrote path text \<Rightarrow> [path] | _ \<Rightarrow> []) (effects r))"

definition commands_run :: "run \<Rightarrow> string list" where
  "commands_run r = concat (map (\<lambda>e. case e of Popen cmd \<Rightarrow> [cmd] | _ \<Rightarrow> []) (effects r))"

subsection \<open>The test-case list\<close>

text \<open>
  Modelled from the spec: the number of test cases a payload supplies. The specification's
  input channel carries ``a structured test-case list, each element
  \<^verbatim>\<open>{input: string, expected_output: string, time_limit_ms?, memory_limit_kb?}\<close>''; the
  source has no reader for it. \<open>spec_supplied_tests\<close> follows those words as far as the
  bracket structure goes: the text is one JSON array, its brackets and braces nest, its
  strings end, and the elements between the outer brackets are separated by commas. It
  gives the number of elements, and \<open>None\<close> for a text that is not of that shape (such a
  text is malformed whatever else a reader checks) or for an absent payload.
\<close>

definition is_space :: "char \<Rightarrow> bool" where
  "is_space c = (c = CHR '' '' \<or> c = CHR 0x09 \<or> c = CHR 0x0A \<or> c = CHR 0x0D)"

datatype scan_mode = Before | Plain | Quoted | Escaped | After

fun scan_tests :: "scan_mode \<Rightarrow> nat \<Rightarrow> nat \<Rightarrow> bool \<Rightarrow> string \<Rightarrow> nat option" where
  "scan_tests mode depth n some [] = (if mode = After then Some n else None)"
| "scan_tests Before depth n some (c # s) =
     (if is_space c then scan_tests Before depth n some s
      else if c = CHR ''['' then scan_tests Plain 1 0 False s
      else None)"
| "scan_tests After depth n some (c # s) =
     (if is_space c then scan_tests After depth n some s else None)"
| "scan_tests Quoted depth n some (c # s) =
     (if c = CHR 0x22 then scan_tests Plain depth n some s
      else if c = CHR 0x5C then scan_tests Escaped depth n some s
      else scan_tests Quoted depth n some s)"
| "scan_tests Escaped depth n some (c # s) = scan_tests Quoted depth n some s"
| "scan_tests Plain depth n some (c # s) =
     (if is_space c then scan_tests Plain depth n some s
      else if c = CHR 0x22 then scan_tests Quoted depth n True s
      else if c = CHR ''['' \<or> c = CHR ''{'' then scan_tests Plain (Suc depth) n True s
      else if c = CHR '']'' \<or> c = CHR ''}'' then
        (if depth = 1 then
           (if c = CHR ''}'' then None
            else if some then scan_tests After 0 (Suc n) False s
            else if n = 0 then scan_tests After 0 0 False s
            else None)
         else scan_tests Plain (depth - 1) n some s)
      else if c = CHR '','' \<and> depth = 1 then
        (if some then scan_tests Plain 1 (Suc n) False s else None)
      else scan_tests Plain depth n True s)"

definition spec_supplied_tests :: "string option \<Rightarrow> nat option" where
  "spec_supplied_tests payload =
     (case payload of None \<Rightarrow> None | Some text \<Rightarrow> scan_tests Before 0 0 False text)"

subsection \<open>A judge to run\<close>

text \<open>
  A world for concrete runs. Its compiler accepts the program \<^verbatim>\<open>int main(){}\<close> behind
  the fixed includes, as g++ does, and answers any other source with one diagnostic line
  (\<open>diagnostic\<close>) and status 256 (exit code 1 as \<^verbatim>\<open>pclose\<close> reports it). The cgroup file
  does not exist and \<^verbatim>\<open>/proc/self/status\<close> has a \<^verbatim>\<open>VmRSS\<close> line.
\<close>

definition diagnostic :: string where
  "diagnostic = ''/tmp/user_code.cpp:12:1: error: expected declaration'' @ [CHR 0x0A]"

fun digits_value :: "nat \<Rightarrow> string \<Rightarrow> nat" where
  "digits_value acc [] = acc"
| "digits_value acc (c # s) =
     (if 48 \<le> (of_char c :: nat) \<and> (of_char c :: nat) \<le> 57
      then digits_value (10 * acc + (of_char c - 48)) s
      else acc)"

definition judge_world :: "string option \<Rightarrow> string option \<Rightarrow> nat \<Rightarrow> world" where
  "judge_world code tests p =
     \<lparr>env = (\<lambda>name. if name = ''CODE'' then code
                    else if name = ''TEST_CASES'' then tests else None),
      ofstream_opens = (\<lambda>path. True),
      popen = (\<lambda>cmd written.
                 if written = source_text ''int main(){}'' then Some ([], 0)
                 else Some (diagnostic, 256)),
      compile_ms = 412,
      ifstream = (\<lambda>path. if path = ''/proc/self/status''
                         then Some (''Name:'' @ [CHR 0x09] @ ''runner'' @ [CHR 0x0A] @
                                    ''VmRSS:'' @ [CHR 0x09] @ ''3456 kB'' @ [CHR 0x0A])
                         else None),
      extract_long = (\<lambda>text. int (digits_value 0 (dropWhile is_space text))),
      pid = p\<rparr>"

text \<open>The base64 text of \<^verbatim>\<open>int main(){}\<close>; the same text followed by a byte outside the
  alphabet; the base64 text, padded, of \<^verbatim>\<open>int main(){\<close>, which does not compile; a list of
  one test case; and a text that is no list.\<close>

definition code_ok :: string where
  "code_ok = ''aW50IG1haW4oKXt9''"


definition code_broken :: string where
  "code_broken = ''aW50IG1haW4oKXs=''"

text \<open>
  A source that includes \<^verbatim>\<open>/dev/stdin\<close>, in base64. g++ reads that file, the standard
  input it inherits from the judge, up to its end; while that input stays open and
  silent, g++ does not exit. \<open>stdin_stays_open\<close> is such a surrounding: every other
  compilation ends.
\<close>

definition source_stdin :: string where
  \<open>source_stdin = ''#include "/dev/stdin"'' @ [CHR 0x0A] @ ''int main(){}''\<close>

definition code_stdin :: string where
  "code_stdin = ''I2luY2x1ZGUgIi9kZXYvc3RkaW4iCmludCBtYWluKCl7fQ==''"

definition stdin_stays_open :: "string \<Rightarrow> string \<Rightarrow> bool" where
  "stdin_stays_open cmd written = (written \<noteq> source_text source_stdin)"

definition one_test :: string where
  \<open>one_test = ''[{"input":"1","expected_output":"1"}]''\<close>

definition no_list :: string where
  \<open>no_list = ''{"input":''\<close>

section \<open>Properties of \<^verbatim>\<open>base64_decode\<close>\<close>

subsection \<open>The table \<open>T\<close>\<close>

lemma index_of_nth: "distinct xs \<Longrightarrow> n < length xs \<Longrightarrow> index_of xs (xs ! n) = n"
proof (induction xs arbitrary: n)
  case Nil then show ?case by simp
next
  case (Cons x xs)
  show ?case
  proof (cases n)
    case 0 then show ?thesis by (simp add: index_of_def)
  next
    case (Suc m)
    with Cons.prems have "xs ! m \<in> set xs" by simp
    with Cons.prems have "x \<noteq> xs ! m" by auto
    with Cons Suc show ?thesis by (simp add: index_of_def)
  qed
qed

lemma index_of_less: "x \<in> set xs \<Longrightarrow> index_of xs x < length xs"
  by (induction xs) (auto simp: index_of_def)

lemma fold_table:
  "distinct xs \<Longrightarrow> n \<le> length xs \<Longrightarrow>
   fold (\<lambda>i t. t(xs ! i := int i)) [0..<n] f c =
     (if c \<in> set (take n xs) then int (index_of xs c) else f c)"
proof (induction n)
  case 0 then show ?case by simp
next
  case (Suc n)
  then have n: "n < length xs" by simp
  have t: "take (Suc n) xs = take n xs @ [xs ! n]"
    using n by (simp add: take_Suc_conv_app_nth)
  show ?case
  proof (cases "c = xs ! n")
    case True
    then show ?thesis using Suc.prems n t by (simp add: index_of_nth)
  next
    case False
    then show ?thesis using Suc n t by simp
  qed
qed

lemma distinct_base64_chars: "distinct base64_chars"
  by (simp add: base64_chars_def)

lemma length_base64_chars: "length base64_chars = 64"
  by (simp add: base64_chars_def)

lemma T_eq: "T c = (if c \<in> set base64_chars then int (index_of base64_chars c) else - 1)"
  unfolding T_def
  using fold_table [OF distinct_base64_chars, of 64 "\<lambda>_. - 1" c]
  by (simp add: length_base64_chars)

lemma T_valid: "T c \<noteq> - 1 \<longleftrightarrow> c \<in> set base64_chars"
  by (simp add: T_eq)

lemma bits_value_snoc: "bits_value (bs @ [b]) = 2 * bits_value bs + of_bool b"
  by (simp add: bits_value_def)

lemma bits_value_append:
  "bits_value (xs @ ys) = bits_value xs * 2 ^ length ys + bits_value ys"
proof (induction ys rule: rev_induct)
  case Nil then show ?case by (simp add: bits_value_def)
next
  case (snoc b ys)
  have "bits_value (xs @ ys @ [b]) = 2 * bits_value (xs @ ys) + of_bool b"
    using bits_value_snoc [of "xs @ ys" b] by simp
  then show ?case by (simp add: snoc bits_value_snoc algebra_simps)
qed

lemma bits_value_less: "bits_value bs < 2 ^ length bs"
proof (induction bs rule: rev_induct)
  case Nil then show ?case by (simp add: bits_value_def)
next
  case (snoc b bs)
  then show ?case by (cases b) (simp_all add: bits_value_snoc)
qed

lemma bits_value_slice:
  assumes "i + k \<le> length bs"
  shows "bits_value (take k (drop i bs)) = (bits_value bs div 2 ^ (length bs - i - k)) mod 2 ^ k"
proof -
  define A where "A = take i bs"
  define B where "B = take k (drop i bs)"
  define C where "C = drop (i + k) bs"
  have bs: "bs = A @ B @ C"
    unfolding A_def B_def C_def
    by (metis add.commute append_take_drop_id drop_drop)
  have lB: "length B = k" and lC: "length C = length bs - i - k"
    using assms by (simp_all add: B_def C_def)
  have "bits_value bs = (bits_value A * 2 ^ k + bits_value B) * 2 ^ length C + bits_value C"
    by (simp add: bs bits_value_append lB algebra_simps power_add)
  then have "bits_value bs div 2 ^ length C = bits_value A * 2 ^ k + bits_value B"
    using bits_value_less [of C] by simp
  then have "(bits_value bs div 2 ^ length C) mod 2 ^ k = bits_value B"
    using bits_value_less [of B] by (simp add: lB)
  then show ?thesis by (simp add: lC B_def)
qed

lemma bits_value_horner: "bits_value bs = horner_sum of_bool 2 (rev bs)"
  by (induction bs rule: rev_induct) (simp_all add: bits_value_snoc, simp add: bits_value_def)

lemma sextet_value:
  assumes "n < 64"
  shows "bits_value (map (bit n) [5, 4, 3, 2, 1, 0]) = (n::nat)"
proof -
  have "[0..<6] = [0, 1, 2, 3, 4, 5::nat]"
    by code_simp
  then have "rev (map (bit n) [5, 4, 3, 2, 1, 0]) = map (bit n) [0..<6]"
    by simp
  then have "bits_value (map (bit n) [5, 4, 3, 2, 1, 0]) = take_bit 6 n"
    by (simp only: bits_value_horner horner_sum_bit_eq_take_bit)
  also have "\<dots> = n"
    using assms by (simp add: take_bit_nat_eq_self_iff)
  finally show ?thesis .
qed

lemma length_sextet_bits: "length (sextet_bits c) = 6"
  by (simp add: sextet_bits_def)

lemma bits_value_sextet:
  "c \<in> set base64_chars \<Longrightarrow> bits_value (sextet_bits c) = index_of base64_chars c"
  unfolding sextet_bits_def
  using index_of_less [of c base64_chars]
  by (intro sextet_value) (simp add: length_base64_chars)

lemma length_bit_stream: "length (bit_stream cs) = 6 * length cs"
  by (induction cs) (simp_all add: bit_stream_def length_sextet_bits)

lemma bit_stream_snoc: "bit_stream (cs @ [c]) = bit_stream cs @ sextet_bits c"
  by (simp add: bit_stream_def)

lemma extract_byte:
  assumes "k \<le> 23"
  shows "char_of (unat (signed_drop_bit k (word_of_nat V :: 32 word) AND 0xFF))
         = char_of ((V div 2 ^ k) mod 2 ^ 8)"
proof -
  have m: "(0xFF :: 32 word) = mask 8" by (simp add: mask_eq_exp_minus_1)
  have "unat (signed_drop_bit k (word_of_nat V :: 32 word) AND 0xFF) = take_bit 8 (drop_bit k V)"
  proof (rule bit_eqI)
    fix i
    show "bit (unat (signed_drop_bit k (word_of_nat V :: 32 word) AND 0xFF)) i
          \<longleftrightarrow> bit (take_bit 8 (drop_bit k V)) i"
      using assms
      by (auto simp add: m bit_simps)
  qed
  then show ?thesis by (simp add: take_bit_eq_mod drop_bit_eq_div)
qed


lemma octets_prefix:
  "map (\<lambda>j. char_of (bits_value (take 8 (drop (8 * j) (L @ S))))) [0..<length L div 8] = octets L"
  unfolding octets_def
proof (rule map_cong [OF refl])
  fix j assume "j \<in> set [0..<length L div 8]"
  then have "8 * j + 8 \<le> length L" by auto
  then show "char_of (bits_value (take 8 (drop (8 * j) (L @ S))))
           = (char_of (bits_value (take 8 (drop (8 * j) L))) :: char)"
    by simp
qed

lemma octets_step_emit:
  assumes "length S = 6" and "2 \<le> length L mod 8"
  shows "octets (L @ S) =
         octets L @ [char_of ((bits_value (L @ S) div 2 ^ (length L mod 8 - 2)) mod 2 ^ 8)]"
proof -
  let ?n = "length L"
  have d: "(?n + 6) div 8 = Suc (?n div 8)" using assms(2) by presburger
  have sl: "bits_value (take 8 (drop (8 * (?n div 8)) (L @ S)))
            = (bits_value (L @ S) div 2 ^ (length (L @ S) - 8 * (?n div 8) - 8)) mod 2 ^ 8"
    using assms by (intro bits_value_slice) (simp, presburger)
  have e: "length (L @ S) - 8 * (?n div 8) - 8 = ?n mod 8 - 2"
    using assms by (simp, presburger)
  have "octets (L @ S) =
        map (\<lambda>j. char_of (bits_value (take 8 (drop (8 * j) (L @ S))))) [0..<Suc (?n div 8)]"
    by (simp add: octets_def assms(1) d)
  also have "\<dots> = octets L @ [char_of (bits_value (take 8 (drop (8 * (?n div 8)) (L @ S))))]"
    by (simp only: upt_Suc_append [OF le0] map_append octets_prefix list.map)
  finally show ?thesis by (simp only: sl e)
qed

lemma octets_step_keep:
  assumes "length S = 6" and "length L mod 8 < 2"
  shows "octets (L @ S) = octets L"
proof -
  let ?n = "length L"
  have d: "(?n + 6) div 8 = ?n div 8" using assms(2) by presburger
  have "octets (L @ S) =
        map (\<lambda>j. char_of (bits_value (take 8 (drop (8 * j) (L @ S))))) [0..<?n div 8]"
    by (simp add: octets_def assms(1) d)
  then show ?thesis by (simp only: octets_prefix)
qed

lemma val_step:
  assumes "c \<in> set base64_chars"
  shows "push_bit 6 (word_of_nat (bits_value L) :: 32 word) + word_of_int (T c)
         = word_of_nat (bits_value (L @ sextet_bits c))"
  using assms
  by (simp add: T_eq bits_value_append length_sextet_bits bits_value_sextet push_bit_eq_mult)

lemma decode_loop_stream:
  assumes "set p \<subseteq> set base64_chars"
  shows "decode_loop (word_of_nat (bits_value (bit_stream p)))
           (int (length (bit_stream p) mod 8) - 8) (octets (bit_stream p)) cs
         = octets (bit_stream (p @ base64_prefix cs))"
  using assms
proof (induction cs arbitrary: p)
  case Nil
  then show ?case by (simp add: base64_prefix_def)
next
  case (Cons c cs)
  show ?case
  proof (cases "c \<in> set base64_chars")
    case False
    then show ?thesis by (simp add: T_eq base64_prefix_def)
  next
    case True
    let ?L = "bit_stream p"
    let ?S = "sextet_bits c"
    let ?V = "word_of_nat (bits_value (?L @ ?S)) :: 32 word"
    have p': "set (p @ [c]) \<subseteq> set base64_chars" using Cons.prems True by simp
    have IH: "decode_loop ?V (int (length (?L @ ?S) mod 8) - 8) (octets (?L @ ?S)) cs
              = octets (bit_stream ((p @ [c]) @ base64_prefix cs))"
      using Cons.IH [OF p'] by (simp only: bit_stream_snoc)
    have pre: "p @ base64_prefix (c # cs) = (p @ [c]) @ base64_prefix cs"
      using True by (simp add: base64_prefix_def)
    have Tc: "T c \<noteq> - 1" using True by (simp add: T_eq)
    show ?thesis
    proof (cases "2 \<le> length ?L mod 8")
      case emit: True
      have m: "int (length ?L mod 8) - 8 + 6 - 8 = int (length (?L @ ?S) mod 8) - 8"
        using emit by (simp add: length_sextet_bits, presburger)
      have n: "nat (int (length ?L mod 8) - 8 + 6) = length ?L mod 8 - 2"
        using emit by simp
      have "length ?L mod 8 < 8"
        by (rule mod_less_divisor) simp
      then have k: "length ?L mod 8 - 2 \<le> 23"
        by linarith
      have o: "octets ?L @ [char_of (unat (signed_drop_bit (length ?L mod 8 - 2) ?V AND 0xFF))]
               = octets (?L @ ?S)"
        by (simp only: octets_step_emit [OF length_sextet_bits emit] extract_byte [OF k])
      have "decode_loop (word_of_nat (bits_value ?L)) (int (length ?L mod 8) - 8) (octets ?L) (c # cs)
          = decode_loop ?V (int (length ?L mod 8) - 8 + 6 - 8)
              (octets ?L @ [char_of (unat (signed_drop_bit (nat (int (length ?L mod 8) - 8 + 6)) ?V AND 0xFF))]) cs"
        using emit Tc by (simp add: Let_def val_step [OF True])
      also have "\<dots> = decode_loop ?V (int (length (?L @ ?S) mod 8) - 8) (octets (?L @ ?S)) cs"
        by (simp only: m n o)
      finally show ?thesis by (simp only: IH pre)
    next
      case keep: False
      have m: "int (length ?L mod 8) - 8 + 6 = int (length (?L @ ?S) mod 8) - 8"
        using keep by (simp add: length_sextet_bits, presburger)
      have o: "octets ?L = octets (?L @ ?S)"
        using keep by (simp add: octets_step_keep [OF length_sextet_bits])
      have "decode_loop (word_of_nat (bits_value ?L)) (int (length ?L mod 8) - 8) (octets ?L) (c # cs)
          = decode_loop ?V (int (length ?L mod 8) - 8 + 6) (octets ?L) cs"
        using keep Tc by (simp add: Let_def val_step [OF True])
      also have "\<dots> = decode_loop ?V (int (length (?L @ ?S) mod 8) - 8) (octets (?L @ ?S)) cs"
        using o by (simp only: m)
      finally show ?thesis by (simp only: IH pre)
    qed
  qed
qed

lemma base64_decode_stream: "base64_decode s = stream_decode (base64_prefix s)"
  using decode_loop_stream [of "[]" s]
  by (simp add: base64_decode_def stream_decode_def bit_stream_def octets_def bits_value_def)

lemma base64_prefix_split:
  "\<exists>rest. s = base64_prefix s @ rest \<and>
          (case rest of [] \<Rightarrow> True | c # cs \<Rightarrow> c \<notin> set base64_chars)"
proof -
  let ?rest = "dropWhile (\<lambda>c. c \<in> set base64_chars) s"
  have "s = base64_prefix s @ ?rest"
    by (simp add: base64_prefix_def)
  moreover have "case ?rest of [] \<Rightarrow> True | c # cs \<Rightarrow> c \<notin> set base64_chars"
  proof (cases ?rest)
    case Nil
    then show ?thesis by (simp only: list.case)
  next
    case (Cons c cs)
    then have "?rest \<noteq> []" by (simp only: list.distinct not_False_eq_True)
    from hd_dropWhile [OF this] show ?thesis by (simp add: Cons)
  qed
  ultimately show ?thesis by blast
qed

text \<open>
  C9. \<^verbatim>\<open>base64_decode\<close> is total (the recursion of \<open>decode_loop\<close> is on the input,
  and the function has no error value to return): for every input it returns the bytes
  of the bit stream of the longest prefix made of alphabet characters only. The input
  splits into that prefix and a rest that is empty or starts with a byte outside the
  alphabet, where decoding stops; the padding character \<^verbatim>\<open>=\<close> is such a byte.
\<close>

theorem base64_decode_longest_prefix:
  "base64_decode s = stream_decode (base64_prefix s)
   \<and> set (base64_prefix s) \<subseteq> set base64_chars
   \<and> (\<exists>rest. s = base64_prefix s @ rest \<and>
          (case rest of [] \<Rightarrow> True | c # cs \<Rightarrow> c \<notin> set base64_chars))
   \<and> CHR ''='' \<notin> set base64_chars"
proof -
  have "set (base64_prefix s) \<subseteq> set base64_chars"
    unfolding base64_prefix_def by (auto dest: set_takeWhileD)
  moreover have "CHR ''='' \<notin> set base64_chars"
    by (simp add: base64_chars_def)
  ultimately show ?thesis
    using base64_decode_stream [of s] base64_prefix_split [of s] by blast
qed

section \<open>Properties of the output and of \<^verbatim>\<open>main\<close>\<close>

lemma show_int_0: "show_int 0 = ''0''"
  by code_simp

lemma printError_bytes:
  \<open>render_line (printError status message compilationTimeMs executionTimeMs) =
     ''{"status":"'' @ status @ ''","error_message":"'' @ escapeJson message @
     ''","compilation_time_ms":'' @ show_int compilationTimeMs @
     '',"execution_time_ms":'' @ show_int executionTimeMs @
     '',"memory_used_kb":0,"tests_passed":0,"tests_total":0}'' @ [CHR 0x0A]\<close>
  by (simp add: render_line_def printError_def show_int_0)

lemma accepted_bytes:
  \<open>render_line (accepted_report compilationTimeMs memoryKb) =
     ''{"status":"accepted","tests_passed":0,"tests_total":0,'' @
     ''"compilation_time_ms":'' @ show_int compilationTimeMs @
     '',"execution_time_ms":0,"total_execution_time_ms":0,'' @
     ''"memory_used_kb":'' @ show_int memoryKb @
     '',"test_results":[]}'' @ [CHR 0x0A]\<close>
  by (simp add: render_line_def accepted_report_def show_int_0)

lemma unescapeJson_plain: "b \<noteq> CHR 0x5C \<Longrightarrow> unescapeJson (b # s) = b # unescapeJson s"
  by (cases s) simp_all

lemma unescapeJson_escapeJson: "unescapeJson (escapeJson s) = s"
  by (induction s) (simp_all add: unescapeJson_plain)

lemma fgets_bytes_append: "fgets_bytes k s = (buffer, rest) \<Longrightarrow> buffer @ rest = s"
  by (induction k s arbitrary: buffer rest rule: fgets_bytes.induct)
     (auto split: if_splits prod.splits)

declare read_pipe.simps [simp del]

lemma c_str_text: "CHR 0x00 \<notin> set s \<Longrightarrow> c_str s = s"
  by (induction s) (auto simp: c_str_def)

lemma read_pipe_text: "CHR 0x00 \<notin> set pipe \<Longrightarrow> read_pipe pipe compileOutput = compileOutput @ pipe"
proof (induction pipe compileOutput rule: read_pipe.induct)
  case (1 pipe compileOutput)
  show ?case
  proof (cases "fgets 128 pipe")
    case None
    then show ?thesis
      by (subst read_pipe.simps) (simp add: fgets_def split: if_splits)
  next
    case (Some x)
    obtain buffer rest where x: "x = (buffer, rest)" by (cases x)
    from Some x have br: "buffer @ rest = pipe"
      by (auto simp: fgets_def dest: fgets_bytes_append split: if_splits)
    with "1.prems" have nz: "CHR 0x00 \<notin> set buffer" "CHR 0x00 \<notin> set rest" by auto
    have "read_pipe pipe compileOutput = read_pipe rest (compileOutput @ c_str buffer)"
      using Some x by (subst read_pipe.simps) simp
    also have "\<dots> = (compileOutput @ c_str buffer) @ rest"
      by (rule "1.IH" [OF Some x [symmetric] nz(2)])
    finally show ?thesis using nz(1) br by (simp add: c_str_text)
  qed
qed

lemma getCgroupsMemoryPeak_env: "getCgroupsMemoryPeak (w\<lparr>env := e\<rparr>) = getCgroupsMemoryPeak w"
  by (simp add: getCgroupsMemoryPeak_def split: option.splits)

lemma find_VmRSS_env: "find_VmRSS (w\<lparr>env := e\<rparr>) ls = find_VmRSS w ls"
  by (induction ls) simp_all

lemma getMemoryUsage_env: "getMemoryUsage (w\<lparr>env := e\<rparr>) = getMemoryUsage w"
  by (simp add: getMemoryUsage_def getCgroupsMemoryPeak_env find_VmRSS_env Let_def
        split: option.splits)

lemma getMemoryUsage_effects_env:
  "getMemoryUsage_effects (w\<lparr>env := e\<rparr>) = getMemoryUsage_effects w"
  by (simp add: getMemoryUsage_effects_def getCgroupsMemoryPeak_env)

lemma main_ignores_TEST_CASES: "main (w\<lparr>env := (env w)(''TEST_CASES'' := t)\<rparr>) = main w"
  by (simp add: main_def getMemoryUsage_env getMemoryUsage_effects_env Let_def
        split: option.splits prod.splits)

lemma main_compile_error:
  assumes "compiler_run w = Some (pipe, compileStatus)" and "compileStatus \<noteq> 0"
  shows "main w = \<lparr>stdout = [printError ''compilation_error'' (read_pipe pipe []) (compile_ms w) 0],
           exit_code = 0,
           effects = [Ofstream sourceFile,
                      Wrote sourceFile (source_text (base64_decode (c_str (the (env w ''CODE''))))),
                      Popen compileCmd]\<rparr>"
  using assms
  by (auto simp: main_def compiler_run_def Let_def split: option.splits if_splits)

lemma field_printError:
  "field ''status'' (printError status message c e) = Some (JStr status)"
  "field ''error_message'' (printError status message c e) = Some (JStr (escapeJson message))"
  "field ''compilation_time_ms'' (printError status message c e) = Some (JNum c)"
  "field ''execution_time_ms'' (printError status message c e) = Some (JNum e)"
  "field ''tests_passed'' (printError status message c e) = Some (JNum 0)"
  "field ''tests_total'' (printError status message c e) = Some (JNum 0)"
  "field ''test_results'' (printError status message c e) = None"
  "test_results (printError status message c e) = []"
  by (simp_all add: field_def printError_def test_results_def)

lemma field_accepted_report:
  "field ''status'' (accepted_report c m) = Some (JStr ''accepted'')"
  "field ''tests_passed'' (accepted_report c m) = Some (JNum 0)"
  "field ''tests_total'' (accepted_report c m) = Some (JNum 0)"
  "field ''test_results'' (accepted_report c m) = Some (JArr [])"
  "test_results (accepted_report c m) = []"
  by (simp_all add: field_def accepted_report_def test_results_def)

lemma main_report:
  "stdout (main w) =
     [case compiler_run w of
        None \<Rightarrow> printError ''compilation_error''
                  (if env w ''CODE'' = None \<or> strlen (the (env w ''CODE'')) = 0 then ''No code provided''
                   else if \<not> ofstream_opens w sourceFile then ''Failed to write source file''
                   else ''Failed to start compiler'') 0 0
      | Some (pipe, compileStatus) \<Rightarrow>
          if compileStatus \<noteq> 0
          then printError ''compilation_error'' (read_pipe pipe []) (compile_ms w) 0
          else accepted_report (compile_ms w) (getMemoryUsage w)]"
  by (auto simp: main_def compiler_run_def Let_def split: option.splits if_splits)

lemma main_exit_code: "exit_code (main w) = 0"
  by (simp add: main_def Let_def split: option.splits prod.splits)

lemma main_commands: "set (commands_run (main w)) \<subseteq> {compileCmd}"
  by (simp add: main_def Let_def commands_run_def getMemoryUsage_effects_def
        split: option.splits prod.splits)

lemma main_waiting_cases:
  "main_waiting pipe_closes w = (if compiler_exits pipe_closes w then Some (main w) else None)"
  by (auto simp: main_waiting_def compiler_exits_def compiler_run_def split: option.splits)

section \<open>The claims\<close>

subsection \<open>C7: one record, exit code 0\<close>

text \<open>
  C7, as stated, fails. The payload \<open>code_stdin\<close> decodes to a source that includes
  \<^verbatim>\<open>/dev/stdin\<close>; the compiler is started and, with its standard input open and silent,
  never closes the pipe. \<^verbatim>\<open>main\<close> waits in the loop of lines 143 to 145: it writes no
  record and returns no exit code.
\<close>

theorem compiler_waiting_on_stdin_writes_nothing:
  "base64_decode code_stdin = source_stdin
   \<and> compiler_run (judge_world (Some code_stdin) None 1) \<noteq> None
   \<and> \<not> stdin_stays_open compileCmd (source_text source_stdin)
   \<and> main_waiting stdin_stays_open (judge_world (Some code_stdin) None 1) = None"
  by code_simp

text \<open>
  C7, amended. On every path through \<^verbatim>\<open>main\<close> on which the compiler, if it is started,
  exits, exactly one record is written to standard output, never none and never two, and
  \<^verbatim>\<open>main\<close> returns 0 whatever the verdict. The record carries the verdict: it is the
  \<^verbatim>\<open>printError\<close> record with status \<^verbatim>\<open>compilation_error\<close> and the reason (no code, no
  source file, no compiler, or the compiler's output after a non-zero exit) exactly when
  the compilation did not succeed, and the record with status \<^verbatim>\<open>accepted\<close> exactly when
  it did.
\<close>

theorem one_verdict_record_when_compiler_exits:
  assumes "compiler_exits pipe_closes w"
  shows "\<exists>r. main_waiting pipe_closes w = Some (main w)
            \<and> stdout (main w) = [r]
            \<and> exit_code (main w) = 0
            \<and> r = (case compiler_run w of
                     None \<Rightarrow> printError ''compilation_error''
                       (if env w ''CODE'' = None \<or> strlen (the (env w ''CODE'')) = 0
                        then ''No code provided''
                        else if \<not> ofstream_opens w sourceFile then ''Failed to write source file''
                        else ''Failed to start compiler'') 0 0
                   | Some (pipe, compileStatus) \<Rightarrow>
                       if compileStatus \<noteq> 0
                       then printError ''compilation_error'' (read_pipe pipe []) (compile_ms w) 0
                       else accepted_report (compile_ms w) (getMemoryUsage w))
            \<and> (field ''status'' r = Some (JStr ''accepted'') \<longleftrightarrow> compiles w)
            \<and> (field ''status'' r = Some (JStr ''compilation_error'') \<longleftrightarrow> \<not> compiles w)"
proof -
  have m: "main_waiting pipe_closes w = Some (main w)"
    using assms by (simp add: main_waiting_cases)
  show ?thesis
    by (auto simp: m main_report main_exit_code compiles_def field_accepted_report
          field_printError split: option.splits)
qed

text \<open>
  C7, amended, at a run whose compiler exits with a diagnostic.
\<close>

theorem one_verdict_record_when_compiler_exits_witness:
  "compiler_exits stdin_stays_open (judge_world (Some code_broken) (Some one_test) 1)
   \<and> \<not> compiles (judge_world (Some code_broken) (Some one_test) 1)
   \<and> main_waiting stdin_stays_open (judge_world (Some code_broken) (Some one_test) 1)
       = Some (main (judge_world (Some code_broken) (Some one_test) 1))
   \<and> exit_code (main (judge_world (Some code_broken) (Some one_test) 1)) = 0
   \<and> (\<exists>r. stdout (main (judge_world (Some code_broken) (Some one_test) 1)) = [r]
          \<and> field ''status'' r = Some (JStr ''compilation_error''))"
proof -
  have h: "compiler_exits stdin_stays_open (judge_world (Some code_broken) (Some one_test) 1)"
    by code_simp
  have n: "\<not> compiles (judge_world (Some code_broken) (Some one_test) 1)"
    by code_simp
  from one_verdict_record_when_compiler_exits [OF h] h n show ?thesis
    by blast
qed

subsection \<open>C10: the record does not depend on \<^verbatim>\<open>TEST_CASES\<close>\<close>

text \<open>
  C10. Two runs that differ only in the value of the environment variable
  \<^verbatim>\<open>TEST_CASES\<close> (any value \<open>t\<close>: absent, well-formed or malformed), with the same
  \<^verbatim>\<open>CODE\<close>, compiler behaviour, clock and memory readings, are the same run: the same
  record, byte for byte, the same exit code and the same effects.
\<close>

theorem report_independent_of_TEST_CASES:
  "main (w\<lparr>env := (env w)(''TEST_CASES'' := t)\<rparr>) = main w
   \<and> map render_line (stdout (main (w\<lparr>env := (env w)(''TEST_CASES'' := t)\<rparr>)))
       = map render_line (stdout (main w))"
  by (simp add: main_ignores_TEST_CASES)

subsection \<open>C6: the counts and the test results\<close>

text \<open>
  C6, as stated, fails. After a compilation that fails the record written is the one of
  \<^verbatim>\<open>printError\<close>, whose seven keys do not include \<^verbatim>\<open>test_results\<close>: the record has no
  such entry, neither an empty list nor any other value, so \<^verbatim>\<open>test_results\<close> is not empty
  but absent and has no length for \<^verbatim>\<open>tests_total\<close> to equal.
\<close>

theorem failure_report_has_no_test_results_key:
  "printError ''compilation_error'' diagnostic 412 0
     \<in> set (stdout (main (judge_world (Some code_broken) (Some one_test) 1)))
   \<and> \<not> compiles (judge_world (Some code_broken) (Some one_test) 1)
   \<and> field ''test_results'' (printError ''compilation_error'' diagnostic 412 0) = None
   \<and> field ''test_results'' (printError ''compilation_error'' diagnostic 412 0) \<noteq> Some (JArr [])
   \<and> map fst (printError ''compilation_error'' diagnostic 412 0)
       = [''status'', ''error_message'', ''compilation_time_ms'', ''execution_time_ms'',
          ''memory_used_kb'', ''tests_passed'', ''tests_total'']"
  by code_simp

text \<open>
  C6, amended. In every record written, \<^verbatim>\<open>tests_passed\<close> and \<^verbatim>\<open>tests_total\<close> are 0.
  After a successful compilation the record has the key \<^verbatim>\<open>test_results\<close> with the empty
  list, so \<^verbatim>\<open>tests_passed\<close> is the number of its entries whose status is \<^verbatim>\<open>accepted\<close>
  and \<^verbatim>\<open>tests_total\<close> is its length. When the compilation did not succeed the status is
  \<^verbatim>\<open>compilation_error\<close> and the record has no \<^verbatim>\<open>test_results\<close> key.
\<close>

theorem report_counts_and_test_results_key:
  "\<forall>r \<in> set (stdout (main w)).
     field ''tests_passed'' r = Some (JNum 0)
     \<and> field ''tests_total'' r = Some (JNum 0)
     \<and> (compiles w \<longrightarrow>
          (\<exists>entries. field ''test_results'' r = Some (JArr entries)
             \<and> entries = []
             \<and> field ''tests_passed'' r
                 = Some (JNum (int (length (filter entry_accepted entries))))
             \<and> field ''tests_total'' r = Some (JNum (int (length entries)))))
     \<and> (\<not> compiles w \<longrightarrow>
          field ''status'' r = Some (JStr ''compilation_error'')
          \<and> field ''test_results'' r = None)"
  by (auto simp: main_report field_printError field_accepted_report compiles_def
        split: option.splits)

text \<open>
  C6, amended, at a run whose compilation fails and at one whose compilation succeeds.
\<close>

theorem report_counts_and_test_results_key_witness:
  "printError ''compilation_error'' diagnostic 412 0
     \<in> set (stdout (main (judge_world (Some code_broken) (Some one_test) 1)))
   \<and> \<not> compiles (judge_world (Some code_broken) (Some one_test) 1)
   \<and> field ''tests_passed'' (printError ''compilation_error'' diagnostic 412 0) = Some (JNum 0)
   \<and> field ''tests_total'' (printError ''compilation_error'' diagnostic 412 0) = Some (JNum 0)
   \<and> field ''test_results'' (printError ''compilation_error'' diagnostic 412 0) = None
   \<and> accepted_report 412 3456 \<in> set (stdout (main (judge_world (Some code_ok) (Some one_test) 1)))
   \<and> compiles (judge_world (Some code_ok) (Some one_test) 1)
   \<and> field ''test_results'' (accepted_report 412 3456) = Some (JArr [])
   \<and> field ''tests_total'' (accepted_report 412 3456) = Some (JNum 0)"
proof -
  have m1: "printError ''compilation_error'' diagnostic 412 0
     \<in> set (stdout (main (judge_world (Some code_broken) (Some one_test) 1)))"
    by code_simp
  have n1: "\<not> compiles (judge_world (Some code_broken) (Some one_test) 1)"
    by code_simp
  have m2: "accepted_report 412 3456
     \<in> set (stdout (main (judge_world (Some code_ok) (Some one_test) 1)))"
    by code_simp
  have n2: "compiles (judge_world (Some code_ok) (Some one_test) 1)"
    by code_simp
  from m1 n1 m2 n2
    report_counts_and_test_results_key [of "judge_world (Some code_broken) (Some one_test) 1",
      THEN bspec, OF m1]
    report_counts_and_test_results_key [of "judge_world (Some code_ok) (Some one_test) 1",
      THEN bspec, OF m2]
  show ?thesis by blast
qed

subsection \<open>C2: no code payload\<close>

text \<open>
  C2. When \<^verbatim>\<open>CODE\<close> is absent or the empty string, the one record written has status
  \<^verbatim>\<open>compilation_error\<close>, both test counts 0 and both timings 0, and the run has no
  effect: no file is opened or written and no command is run, so neither the compiler nor
  a test is attempted.
\<close>

theorem no_code_report:
  assumes "env w ''CODE'' = None \<or> env w ''CODE'' = Some []"
  shows "main w = \<lparr>stdout = [printError ''compilation_error'' ''No code provided'' 0 0],
                   exit_code = 0, effects = []\<rparr>
         \<and> (\<exists>r. stdout (main w) = [r]
               \<and> field ''status'' r = Some (JStr ''compilation_error'')
               \<and> field ''tests_passed'' r = Some (JNum 0)
               \<and> field ''tests_total'' r = Some (JNum 0)
               \<and> field ''compilation_time_ms'' r = Some (JNum 0)
               \<and> field ''execution_time_ms'' r = Some (JNum 0)
               \<and> test_results r = [])
         \<and> effects (main w) = []
         \<and> commands_run (main w) = []
         \<and> files_written (main w) = []"
proof -
  have m: "main w = \<lparr>stdout = [printError ''compilation_error'' ''No code provided'' 0 0],
                     exit_code = 0, effects = []\<rparr>"
    using assms by (auto simp: main_def strlen_def c_str_def)
  show ?thesis
    by (simp add: m field_printError commands_run_def files_written_def)
qed

text \<open>
  C2 at an empty and at an absent \<^verbatim>\<open>CODE\<close>.
\<close>

theorem no_code_report_witness:
  "(env (judge_world (Some []) (Some one_test) 1) ''CODE'' = None
      \<or> env (judge_world (Some []) (Some one_test) 1) ''CODE'' = Some [])
   \<and> main (judge_world (Some []) (Some one_test) 1)
       = \<lparr>stdout = [printError ''compilation_error'' ''No code provided'' 0 0],
          exit_code = 0, effects = []\<rparr>
   \<and> (env (judge_world None (Some one_test) 1) ''CODE'' = None
      \<or> env (judge_world None (Some one_test) 1) ''CODE'' = Some [])
   \<and> main (judge_world None (Some one_test) 1)
       = \<lparr>stdout = [printError ''compilation_error'' ''No code provided'' 0 0],
          exit_code = 0, effects = []\<rparr>"
proof -
  have h1: "env (judge_world (Some []) (Some one_test) 1) ''CODE'' = None
      \<or> env (judge_world (Some []) (Some one_test) 1) ''CODE'' = Some []"
    by (simp add: judge_world_def)
  have h2: "env (judge_world None (Some one_test) 1) ''CODE'' = None
      \<or> env (judge_world None (Some one_test) 1) ''CODE'' = Some []"
    by (simp add: judge_world_def)
  from h1 h2 no_code_report [OF h1] no_code_report [OF h2] show ?thesis
    by blast
qed

subsection \<open>C3: the compiler exits with a non-zero status\<close>

text \<open>
  C3. When the compiler is run and exits with a non-zero status, the one record written
  has status \<^verbatim>\<open>compilation_error\<close>; its \<^verbatim>\<open>error_message\<close> is \<open>escapeJson\<close> of the
  output read from the pipe, which a JSON reader turns back into that output, and the
  output read is everything the compiler wrote (standard output and standard error, merged
  by \<^verbatim>\<open>2>&1\<close> in the command) when that is text without NUL bytes; both test counts
  are 0 and there are no test results; and nothing follows the compiler: the effects end
  with the one command, the compilation.
\<close>

theorem compile_failure_report:
  assumes "compiler_run w = Some (pipe, compileStatus)" and "compileStatus \<noteq> 0"
  shows "\<exists>r. stdout (main w) = [r]
            \<and> field ''status'' r = Some (JStr ''compilation_error'')
            \<and> field ''error_message'' r = Some (JStr (escapeJson (read_pipe pipe [])))
            \<and> unescapeJson (escapeJson (read_pipe pipe [])) = read_pipe pipe []
            \<and> (CHR 0x00 \<notin> set pipe \<longrightarrow> read_pipe pipe [] = pipe)
            \<and> field ''tests_passed'' r = Some (JNum 0)
            \<and> field ''tests_total'' r = Some (JNum 0)
            \<and> field ''execution_time_ms'' r = Some (JNum 0)
            \<and> test_results r = []
            \<and> commands_run (main w) = [compileCmd]
            \<and> compileCmd = ''g++ -O2 -std=c++17 -o /tmp/user_code /tmp/user_code.cpp 2>&1''
            \<and> (\<exists>written. effects (main w) =
                  [Ofstream sourceFile, Wrote sourceFile written, Popen compileCmd])
            \<and> exit_code (main w) = 0"
proof -
  have c: "compileCmd = ''g++ -O2 -std=c++17 -o /tmp/user_code /tmp/user_code.cpp 2>&1''"
    by (simp add: compileCmd_def execFile_def sourceFile_def)
  show ?thesis
    using main_compile_error [OF assms] c
    by (simp add: field_printError unescapeJson_escapeJson read_pipe_text commands_run_def)
qed

text \<open>
  C3 at a run whose source does not compile.
\<close>

theorem compile_failure_report_witness:
  "compiler_run (judge_world (Some code_broken) (Some one_test) 1) = Some (diagnostic, 256)
   \<and> (256 :: int) \<noteq> 0
   \<and> CHR 0x00 \<notin> set diagnostic
   \<and> (\<exists>r. stdout (main (judge_world (Some code_broken) (Some one_test) 1)) = [r]
            \<and> field ''status'' r = Some (JStr ''compilation_error'')
            \<and> field ''error_message'' r = Some (JStr (escapeJson diagnostic))
            \<and> field ''tests_passed'' r = Some (JNum 0)
            \<and> field ''tests_total'' r = Some (JNum 0)
            \<and> commands_run (main (judge_world (Some code_broken) (Some one_test) 1)) = [compileCmd])"
proof -
  have h1: "compiler_run (judge_world (Some code_broken) (Some one_test) 1) = Some (diagnostic, 256)"
    by code_simp
  have h2: "(256 :: int) \<noteq> 0"
    by simp
  have h3: "CHR 0x00 \<notin> set diagnostic"
    by code_simp
  from compile_failure_report [OF h1 h2] h3
  have "\<exists>r. stdout (main (judge_world (Some code_broken) (Some one_test) 1)) = [r]
            \<and> field ''status'' r = Some (JStr ''compilation_error'')
            \<and> field ''error_message'' r = Some (JStr (escapeJson diagnostic))
            \<and> field ''tests_passed'' r = Some (JNum 0)
            \<and> field ''tests_total'' r = Some (JNum 0)
            \<and> commands_run (main (judge_world (Some code_broken) (Some one_test) 1)) = [compileCmd]"
    by auto
  with h1 h2 h3 show ?thesis by blast
qed

subsection \<open>C1: the test counts after a successful compilation\<close>

text \<open>
  C1, as stated, fails. The payload \<open>one_test\<close> supplies one test case and the source
  compiles, yet the record has \<^verbatim>\<open>tests_total\<close> 0, not 1, no test results, and status
  \<^verbatim>\<open>accepted\<close>: the source stops after the compilation (its comment at lines 157 to 159
  says so) and runs no test.
\<close>

theorem compiled_with_one_test_reports_zero:
  "compiles (judge_world (Some code_ok) (Some one_test) 1)
   \<and> spec_supplied_tests (env (judge_world (Some code_ok) (Some one_test) 1) ''TEST_CASES'') = Some 1
   \<and> stdout (main (judge_world (Some code_ok) (Some one_test) 1)) = [accepted_report 412 3456]
   \<and> field ''status'' (accepted_report 412 3456) = Some (JStr ''accepted'')
   \<and> field ''tests_total'' (accepted_report 412 3456) = Some (JNum 0)
   \<and> field ''tests_total'' (accepted_report 412 3456) \<noteq> Some (JNum 1)
   \<and> test_results (accepted_report 412 3456) = []"
  by code_simp

text \<open>
  C1, amended. For every submission whose source compiles (the compiler exits with 0)
  and every value \<open>t\<close> of \<^verbatim>\<open>TEST_CASES\<close>, whatever number of test cases it supplies, the
  one record written has status \<^verbatim>\<open>accepted\<close>, \<^verbatim>\<open>tests_passed\<close> 0, \<^verbatim>\<open>tests_total\<close> 0 and
  an empty \<^verbatim>\<open>test_results\<close>, so \<^verbatim>\<open>tests_total\<close> is the length of \<^verbatim>\<open>test_results\<close>.
\<close>

theorem compiled_report_has_no_tests:
  assumes "compiles w"
  shows "\<exists>r. stdout (main (w\<lparr>env := (env w)(''TEST_CASES'' := t)\<rparr>)) = [r]
            \<and> field ''status'' r = Some (JStr ''accepted'')
            \<and> field ''tests_passed'' r = Some (JNum 0)
            \<and> field ''tests_total'' r = Some (JNum 0)
            \<and> test_results r = []
            \<and> field ''tests_total'' r = Some (JNum (int (length (test_results r))))"
  using assms
  by (auto simp: main_ignores_TEST_CASES main_report compiles_def field_accepted_report
        split: option.splits)

text \<open>
  C1, amended, at a source that compiles and a list of one test case.
\<close>

theorem compiled_report_has_no_tests_witness:
  "compiles (judge_world (Some code_ok) None 1)
   \<and> (\<exists>r. stdout (main ((judge_world (Some code_ok) None 1)
              \<lparr>env := (env (judge_world (Some code_ok) None 1))(''TEST_CASES'' := Some one_test)\<rparr>)) = [r]
            \<and> field ''status'' r = Some (JStr ''accepted'')
            \<and> field ''tests_passed'' r = Some (JNum 0)
            \<and> field ''tests_total'' r = Some (JNum 0)
            \<and> test_results r = []
            \<and> field ''tests_total'' r = Some (JNum (int (length (test_results r)))))"
proof -
  have h: "compiles (judge_world (Some code_ok) None 1)"
    by code_simp
  from h compiled_report_has_no_tests [OF h, where t = "Some one_test"]
  show ?thesis by (rule conjI)
qed

subsection \<open>C4: a code payload that is not base64\<close>




subsection \<open>C5: a malformed test-case payload\<close>

text \<open>
  C5, as stated, fails. The payload \<open>no_list\<close> is no test-case list (it opens a brace
  and a string and closes neither), the source compiles, and the record has status
  \<^verbatim>\<open>accepted\<close>, not \<^verbatim>\<open>compilation_error\<close>.
\<close>

theorem malformed_tests_accepted:
  "spec_supplied_tests (env (judge_world (Some code_ok) (Some no_list) 1) ''TEST_CASES'') = None
   \<and> env (judge_world (Some code_ok) (Some no_list) 1) ''TEST_CASES'' = Some no_list
   \<and> stdout (main (judge_world (Some code_ok) (Some no_list) 1)) = [accepted_report 412 3456]
   \<and> field ''status'' (accepted_report 412 3456) = Some (JStr ''accepted'')
   \<and> field ''status'' (accepted_report 412 3456) \<noteq> Some (JStr ''compilation_error'')"
  by code_simp

text \<open>
  C5, amended. \<^verbatim>\<open>TEST_CASES\<close> is read and never decoded. For every value \<open>t\<close> of it,
  malformed or not, the one record written has status \<^verbatim>\<open>compilation_error\<close> exactly when
  the compilation does not succeed (no code, no source file, no compiler, or a non-zero
  exit), and \<^verbatim>\<open>accepted\<close> exactly when it does; no test case is attempted: both counts
  are 0, there are no test results, and the only command ever run is the compiler.
\<close>

theorem TEST_CASES_never_decoded:
  "\<exists>r. stdout (main (w\<lparr>env := (env w)(''TEST_CASES'' := t)\<rparr>)) = [r]
       \<and> (field ''status'' r = Some (JStr ''compilation_error'') \<longleftrightarrow> \<not> compiles w)
       \<and> (field ''status'' r = Some (JStr ''accepted'') \<longleftrightarrow> compiles w)
       \<and> field ''tests_passed'' r = Some (JNum 0)
       \<and> field ''tests_total'' r = Some (JNum 0)
       \<and> test_results r = []
       \<and> set (commands_run (main (w\<lparr>env := (env w)(''TEST_CASES'' := t)\<rparr>))) \<subseteq> {compileCmd}"
  using main_commands [of w]
  by (auto simp: main_ignores_TEST_CASES main_report compiles_def field_accepted_report
        field_printError split: option.splits)

subsection \<open>C8: the paths of two judge instances\<close>

text \<open>
  C8, as stated, fails. Two judge processes with different process ids, judging different
  submissions, write the same source file \<^verbatim>\<open>/tmp/user_code.cpp\<close> and run the same
  command, which names the same executable \<^verbatim>\<open>/tmp/user_code\<close>.
\<close>

theorem two_instances_share_paths:
  "pid (judge_world (Some code_ok) None 1) \<noteq> pid (judge_world (Some code_broken) None 2)
   \<and> files_written (main (judge_world (Some code_ok) None 1))
       = files_written (main (judge_world (Some code_broken) None 2))
   \<and> files_written (main (judge_world (Some code_ok) None 1)) = [''/tmp/user_code.cpp'']
   \<and> files_written (main (judge_world (Some code_broken) None 2)) = [''/tmp/user_code.cpp'']
   \<and> commands_run (main (judge_world (Some code_ok) None 1))
       = [''g++ -O2 -std=c++17 -o /tmp/user_code /tmp/user_code.cpp 2>&1'']
   \<and> commands_run (main (judge_world (Some code_broken) None 2))
       = [''g++ -O2 -std=c++17 -o /tmp/user_code /tmp/user_code.cpp 2>&1'']"
  by code_simp

text \<open>
  C8, amended. The two paths are fixed: any two runs that get as far as writing the
  source, whatever their process ids, write the one file \<^verbatim>\<open>/tmp/user_code.cpp\<close> and run
  the one command \<^verbatim>\<open>g++ -O2 -std=c++17 -o /tmp/user_code /tmp/user_code.cpp 2>&1\<close>.
  Instances that run at the same time need separate file systems.
\<close>

theorem fixed_paths:
  assumes "files_written (main w1) \<noteq> []" and "files_written (main w2) \<noteq> []"
  shows "files_written (main w1) = files_written (main w2)
         \<and> files_written (main w1) = [''/tmp/user_code.cpp'']
         \<and> commands_run (main w1) = commands_run (main w2)
         \<and> commands_run (main w1) = [''g++ -O2 -std=c++17 -o /tmp/user_code /tmp/user_code.cpp 2>&1'']"
proof -
  have "files_written (main w) = [''/tmp/user_code.cpp'']
        \<and> commands_run (main w) = [''g++ -O2 -std=c++17 -o /tmp/user_code /tmp/user_code.cpp 2>&1'']"
    if "files_written (main w) \<noteq> []" for w
    using that
    by (simp add: main_def Let_def files_written_def commands_run_def getMemoryUsage_effects_def
          sourceFile_def execFile_def compileCmd_def
          split: option.splits prod.splits if_splits)
  from this [OF assms(1)] this [OF assms(2)] show ?thesis by simp
qed

text \<open>
  C8, amended, at two instances with process ids 1 and 2.
\<close>

theorem fixed_paths_witness:
  "files_written (main (judge_world (Some code_ok) None 1)) \<noteq> []
   \<and> files_written (main (judge_world (Some code_broken) None 2)) \<noteq> []
   \<and> pid (judge_world (Some code_ok) None 1) = 1
   \<and> pid (judge_world (Some code_broken) None 2) = 2
   \<and> files_written (main (judge_world (Some code_ok) None 1))
       = files_written (main (judge_world (Some code_broken) None 2))
   \<and> commands_run (main (judge_world (Some code_ok) None 1))
       = commands_run (main (judge_world (Some code_broken) None 2))"
proof -
  have h1: "files_written (main (judge_world (Some code_ok) None 1)) \<noteq> []"
    by code_simp
  have h2: "files_written (main (judge_world (Some code_broken) None 2)) \<noteq> []"
    by code_simp
  have p: "pid (judge_world (Some code_ok) None 1) = 1"
          "pid (judge_world (Some code_broken) None 2) = 2"
    by (simp_all add: judge_world_def)
  from h1 h2 p fixed_paths [OF h1 h2] show ?thesis
    by blast
qed

end
